theory Spec2Isabelle
  imports Main
begin

section \<open>JavaScript string primitives\<close>

text \<open>
  A JavaScript string is modelled as a \<open>string\<close>, one \<open>char\<close> per code unit; the
  model covers the code units below 256 (ASCII and Latin-1).
\<close>

definition code :: "char \<Rightarrow> nat" where
  "code c = of_char c"

text \<open>The class \<open>\s\<close> of a regular expression, which is also what \<open>trim\<close> strips:
  tab, line feed, vertical tab, form feed, carriage return, space, no-break space.\<close>

definition is_space :: "char \<Rightarrow> bool" where
  "is_space c = (let n = code c in (9 \<le> n \<and> n \<le> 13) \<or> n = 32 \<or> n = 160)"

text \<open>The class \<open>\w\<close>: \<open>[A-Za-z0-9_]\<close>.\<close>

definition is_word :: "char \<Rightarrow> bool" where
  "is_word c = (let n = code c in
     (65 \<le> n \<and> n \<le> 90) \<or> (97 \<le> n \<and> n \<le> 122) \<or> (48 \<le> n \<and> n \<le> 57) \<or> n = 95)"

definition lower_char :: "char \<Rightarrow> char" where
  "lower_char c = (let n = code c in
     if (65 \<le> n \<and> n \<le> 90) \<or> (192 \<le> n \<and> n \<le> 222 \<and> n \<noteq> 215)
     then char_of (n + 32) else c)"

definition upper_char :: "char \<Rightarrow> char" where
  "upper_char c = (let n = code c in
     if 97 \<le> n \<and> n \<le> 122 then char_of (n - 32) else c)"

definition toLowerCase :: "string \<Rightarrow> string" where
  "toLowerCase s = map lower_char s"

definition trim :: "string \<Rightarrow> string" where
  "trim s = rev (dropWhile is_space (rev (dropWhile is_space s)))"

fun startsWith :: "string \<Rightarrow> string \<Rightarrow> bool" where
  "startsWith s [] = True"
| "startsWith [] (p # ps) = False"
| "startsWith (c # cs) (p # ps) = (c = p \<and> startsWith cs ps)"

text \<open>\<open>s.includes(sub)\<close>: \<open>sub\<close> occurs in \<open>s\<close> as a contiguous substring.\<close>

fun includesStr :: "string \<Rightarrow> string \<Rightarrow> bool" where
  "includesStr [] sub = (sub = [])"
| "includesStr (c # cs) sub = (startsWith (c # cs) sub \<or> includesStr cs sub)"

text \<open>\<open>s.indexOf(sub)\<close>, with \<open>None\<close> for JavaScript's \<open>-1\<close>.\<close>

fun indexOf :: "string \<Rightarrow> string \<Rightarrow> nat option" where
  "indexOf [] sub = (if sub = [] then Some 0 else None)"
| "indexOf (c # cs) sub =
     (if startsWith (c # cs) sub then Some 0 else map_option Suc (indexOf cs sub))"

definition cons_hd :: "char \<Rightarrow> string list \<Rightarrow> string list" where
  "cons_hd c pss = (case pss of [] \<Rightarrow> [[c]] | p # ps \<Rightarrow> (c # p) # ps)"

text \<open>
  \<open>s.split(re)\<close> for a regular expression \<open>[...]+\<close> over a character class \<open>P\<close>:
  the pieces between the maximal runs of characters of the class. A run at the start
  or at the end of the string leaves an empty piece there, and the empty string gives
  one empty piece. The flag says that the previous character belonged to a run.
\<close>

fun splitRuns :: "(char \<Rightarrow> bool) \<Rightarrow> bool \<Rightarrow> string \<Rightarrow> string list" where
  "splitRuns P inrun [] = [[]]"
| "splitRuns P inrun (c # cs) =
     (if P c then (if inrun then splitRuns P True cs else [] # splitRuns P True cs)
      else cons_hd c (splitRuns P False cs))"

definition splitRe :: "(char \<Rightarrow> bool) \<Rightarrow> string \<Rightarrow> string list" where
  "splitRe P s = splitRuns P False s"

text \<open>
  \<open>s.split(sep)\<close> for a string separator: the pieces between the occurrences of
  \<open>sep\<close>, found from the left without overlap. An empty separator splits into
  single code units. \<open>skip\<close> counts the characters of a separator still to pass.
\<close>

fun splitSep :: "string \<Rightarrow> nat \<Rightarrow> string \<Rightarrow> string list" where
  "splitSep sep skip [] = [[]]"
| "splitSep sep skip (c # cs) =
     (if 0 < skip then splitSep sep (skip - 1) cs
      else if startsWith (c # cs) sep then [] # splitSep sep (length sep - 1) cs
      else cons_hd c (splitSep sep 0 cs))"

definition splitStr :: "string \<Rightarrow> string \<Rightarrow> string list" where
  "splitStr s sep = (if sep = [] then map (\<lambda>c. [c]) s else splitSep sep 0 s)"

text \<open>Decimal digits of a number, as template literals print it.\<close>

fun digits :: "nat \<Rightarrow> string" where
  "digits n = (if n < 10 then [char_of (48 + n)]
               else digits (n div 10) @ [char_of (48 + n mod 10)])"

declare digits.simps [simp del]

definition dquote :: "string \<Rightarrow> string" where
  "dquote s = CHR 0x22 # s @ [CHR 0x22]"

section \<open>Gap analysis (utils/gapAnalysis.js)\<close>

datatype category = missing_context | ambiguous_requirement | unclear_output | missing_constraints

datatype severity = low | medium | high

record finding =
  category :: category
  description :: string
  suggestion :: string
  severity :: severity

definition CONTEXT_INDICATORS :: "string list" where
  "CONTEXT_INDICATORS =
     [''it'', ''this'', ''that'', ''they'', ''them'', ''those'', ''here'', ''there'',
      ''the system'', ''the app'', ''the website'', ''the platform'']"

definition AMBIGUITY_INDICATORS :: "string list" where
  "AMBIGUITY_INDICATORS =
     [''maybe'', ''possibly'', ''might'', ''could'', ''should'', ''would'',
      ''better'', ''best'', ''good'', ''nice'', ''pretty'', ''cool'',
      ''soon'', ''quickly'', ''fast'', ''efficient'', ''user-friendly'']"

definition OUTPUT_INDICATORS :: "string list" where
  "OUTPUT_INDICATORS =
     [''something'', ''stuff'', ''things'', ''data'', ''information'',
      ''report'', ''summary'', ''analysis'', ''results'']"

definition CONSTRAINT_INDICATORS :: "string list" where
  "CONSTRAINT_INDICATORS =
     [''any'', ''all'', ''every'', ''always'', ''never'',
      ''unlimited'', ''infinite'', ''maximum'', ''minimum'']"

definition is_terminator :: "char \<Rightarrow> bool" where
  "is_terminator c = (c = CHR ''.'' \<or> c = CHR ''!'' \<or> c = CHR ''?'')"

text \<open>\<open>text.split(/[.!?]+/).filter(s => s.trim().length > 0)\<close>\<close>

definition sentences :: "string \<Rightarrow> string list" where
  "sentences text = filter (\<lambda>s. 0 < length (trim s)) (splitRe is_terminator text)"

definition context_gap :: "string \<Rightarrow> nat \<Rightarrow> finding" where
  "context_gap indicator index =
     \<lparr> category = missing_context,
       description = ''Unclear reference to '' @ dquote indicator @ '' in sentence '' @ digits (index + 1),
       suggestion = ''Specify what '' @ dquote indicator @ '' refers to'',
       severity = medium \<rparr>"

text \<open>
  The body of the inner \<open>forEach\<close>: the findings one indicator adds for one sentence.
  \<open>split\<close> by a non-empty separator returns at least one piece (lemma
  \<open>splitStr_not_Nil\<close>), so the first case below is never taken.
\<close>

definition context_step :: "string \<Rightarrow> nat \<Rightarrow> string \<Rightarrow> finding list" where
  "context_step sentence index indicator =
     (if includesStr (toLowerCase sentence) (toLowerCase indicator)
      then (case splitStr sentence indicator of
              [] \<Rightarrow> []
            | part # _ \<Rightarrow>
                (let wordsBefore = trim part
                 in if length wordsBefore < 10 then [context_gap indicator index] else []))
      else [])"

definition findMissingContext :: "string \<Rightarrow> finding list" where
  "findMissingContext text =
     concat (map (\<lambda>(sentence, index).
                    concat (map (context_step sentence index) CONTEXT_INDICATORS))
                 (zip (sentences text) [0 ..< length (sentences text)]))"

definition ambiguity_gap :: "string \<Rightarrow> finding" where
  "ambiguity_gap indicator =
     \<lparr> category = ambiguous_requirement,
       description = ''Vague requirement: '' @ dquote indicator,
       suggestion = ''Replace '' @ dquote indicator @ '' with specific, measurable criteria'',
       severity = high \<rparr>"

definition findAmbiguousRequirements :: "string \<Rightarrow> finding list" where
  "findAmbiguousRequirements text =
     concat (map (\<lambda>indicator.
                    if includesStr (toLowerCase text) (toLowerCase indicator)
                    then [ambiguity_gap indicator] else [])
                 AMBIGUITY_INDICATORS)"

definition output_gap :: "string \<Rightarrow> finding" where
  "output_gap indicator =
     \<lparr> category = unclear_output,
       description = ''Unclear output: '' @ dquote indicator,
       suggestion = ''Specify the exact format, structure, and content of the '' @ dquote indicator,
       severity = medium \<rparr>"

definition findUnclearOutputs :: "string \<Rightarrow> finding list" where
  "findUnclearOutputs text =
     concat (map (\<lambda>indicator.
                    if includesStr (toLowerCase text) (toLowerCase indicator)
                    then [output_gap indicator] else [])
                 OUTPUT_INDICATORS)"

definition constraint_gap :: "string \<Rightarrow> finding" where
  "constraint_gap indicator =
     \<lparr> category = missing_constraints,
       description = ''Missing constraint: '' @ dquote indicator,
       suggestion = ''Specify limits, boundaries, or specific criteria for '' @ dquote indicator,
       severity = medium \<rparr>"

definition findMissingConstraints :: "string \<Rightarrow> finding list" where
  "findMissingConstraints text =
     concat (map (\<lambda>indicator.
                    if includesStr (toLowerCase text) (toLowerCase indicator)
                    then [constraint_gap indicator] else [])
                 CONSTRAINT_INDICATORS)"

text \<open>
  \<open>calculateClarityScore\<close>. The score is an integer throughout, so \<open>Math.round\<close>
  leaves it as it is. \<open>wordCount\<close> is the number of pieces of
  \<open>text.split(/\s+/)\<close>.
\<close>

definition wordCount :: "string \<Rightarrow> nat" where
  "wordCount text = length (splitRe is_space text)"

definition calculateClarityScore :: "string \<Rightarrow> finding list \<Rightarrow> int" where
  "calculateClarityScore text gaps =
     (let baseScore = 100;
          penaltyPerGap = 15;
          penaltyPerHighSeverity = 10;
          score = baseScore;
          score = score - int (length gaps) * penaltyPerGap;
          highSeverityGaps = filter (\<lambda>gap. severity gap = high) gaps;
          score = score - int (length highSeverityGaps) * penaltyPerHighSeverity;
          score = (if wordCount text > 20 then score + 5 else score);
          score = (if wordCount text > 50 then score + 10 else score)
      in max 0 (min 100 score))"

text \<open>\<open>xs.findIndex(P)\<close>: the first index whose element satisfies \<open>P\<close>, or \<open>-1\<close>.\<close>

fun findIndex :: "('a \<Rightarrow> bool) \<Rightarrow> 'a list \<Rightarrow> int" where
  "findIndex P [] = - 1"
| "findIndex P (x # xs) =
     (if P x then 0 else (let r = findIndex P xs in if r < 0 then - 1 else r + 1))"

text \<open>\<open>gaps.filter((gap, index, self) => index === self.findIndex(g => g.description === gap.description))\<close>\<close>

definition uniqueGaps :: "finding list \<Rightarrow> finding list" where
  "uniqueGaps gaps =
     map fst (filter (\<lambda>(gap, index).
                        int index = findIndex (\<lambda>g. description g = description gap) gaps)
                     (zip gaps [0 ..< length gaps]))"

record analysis =
  gaps :: "finding list"
  overall_clarity_score :: int

definition allGaps :: "string \<Rightarrow> finding list" where
  "allGaps text =
     findMissingContext text @ findAmbiguousRequirements text
       @ findUnclearOutputs text @ findMissingConstraints text"

definition analyzeTextForGaps :: "string \<Rightarrow> analysis" where
  "analyzeTextForGaps text =
     (let unique = uniqueGaps (allGaps text)
      in \<lparr> gaps = unique, overall_clarity_score = calculateClarityScore text unique \<rparr>)"

definition generateClaritySuggestions :: "finding list \<Rightarrow> string list" where
  "generateClaritySuggestions gs =
     (if list_ex (\<lambda>gap. category gap = missing_context) gs
        then [''Add specific context and background information''] else [])
     @ (if list_ex (\<lambda>gap. category gap = ambiguous_requirement) gs
        then [''Use specific, measurable criteria instead of subjective terms''] else [])
     @ (if list_ex (\<lambda>gap. category gap = unclear_output) gs
        then [''Specify exact output format, structure, and content requirements''] else [])
     @ (if list_ex (\<lambda>gap. category gap = missing_constraints) gs
        then [''Define clear boundaries, limits, and constraints''] else [])"

section \<open>Regular expressions of utils/promptProcessor.js\<close>

text \<open>
  The patterns of the extraction functions are sequences of three kinds of atoms, all
  under the flag \<open>i\<close>: a literal text, the capturing group \<open>(\w+)\<close> and \<open>\s+\<close>.
\<close>

datatype atom = Lit string | WordGroup | Spaces

text \<open>A greedy \<open>+\<close>: the longest run first, then the shorter ones, at least one character.\<close>

fun longest :: "(nat \<Rightarrow> 'a option) \<Rightarrow> nat \<Rightarrow> 'a option" where
  "longest k 0 = None"
| "longest k (Suc n) = (case k (Suc n) of Some r \<Rightarrow> Some r | None \<Rightarrow> longest k n)"

text \<open>A match at the start of \<open>s\<close>: the captured groups and the number of characters matched.\<close>

primrec match_at :: "atom list \<Rightarrow> string \<Rightarrow> (string list \<times> nat) option" where
  "match_at [] s = Some ([], 0)"
| "match_at (a # as) s =
     (case a of
        Lit l \<Rightarrow>
          if startsWith (toLowerCase s) (toLowerCase l)
          then map_option (\<lambda>(caps, n). (caps, length l + n)) (match_at as (drop (length l) s))
          else None
      | WordGroup \<Rightarrow>
          longest (\<lambda>k. map_option (\<lambda>(caps, n). (take k s # caps, k + n)) (match_at as (drop k s)))
                  (length (takeWhile is_word s))
      | Spaces \<Rightarrow>
          longest (\<lambda>k. map_option (\<lambda>(caps, n). (caps, k + n)) (match_at as (drop k s)))
                  (length (takeWhile is_space s)))"

text \<open>\<open>text.match(re)\<close> without the flag \<open>g\<close>: the groups of the leftmost match.\<close>

fun matchRe :: "atom list \<Rightarrow> string \<Rightarrow> string list option" where
  "matchRe re [] = map_option fst (match_at re [])"
| "matchRe re (c # cs) =
     (case match_at re (c # cs) of Some (caps, n) \<Rightarrow> Some caps | None \<Rightarrow> matchRe re cs)"

text \<open>
  \<open>text.matchAll(re)\<close> with the flag \<open>g\<close>: the groups of every match, from the left,
  each search starting where the previous match ended (one character further after an
  empty match). \<open>skip\<close> counts the characters of the previous match still to pass.
\<close>

fun matchAllFrom :: "atom list \<Rightarrow> nat \<Rightarrow> string \<Rightarrow> string list list" where
  "matchAllFrom re skip [] =
     (if 0 < skip then []
      else (case match_at re [] of Some (caps, n) \<Rightarrow> [caps] | None \<Rightarrow> []))"
| "matchAllFrom re skip (c # cs) =
     (if 0 < skip then matchAllFrom re (skip - 1) cs
      else (case match_at re (c # cs) of
              Some (caps, n) \<Rightarrow> caps # matchAllFrom re (n - 1) cs
            | None \<Rightarrow> matchAllFrom re 0 cs))"

definition matchAll :: "atom list \<Rightarrow> string \<Rightarrow> string list list" where
  "matchAll re text = matchAllFrom re 0 text"

text \<open>
  \<open>match[1]\<close>. Every pattern below has one group, so a match has one captured text
  (lemma \<open>match_at_groups\<close>); a pattern without a group would give \<open>undefined\<close>.
\<close>

definition group1 :: "string list \<Rightarrow> string" where
  "group1 caps = (case caps of [] \<Rightarrow> ''undefined'' | c # _ \<Rightarrow> c)"

section \<open>Prompt processing (utils/promptProcessor.js)\<close>

datatype error = TypeError string

fun message :: "error \<Rightarrow> string" where
  "message (TypeError m) = m"

definition actionVerbs :: "string list" where
  "actionVerbs =
     [''generate'', ''create'', ''build'', ''make'', ''develop'', ''design'', ''implement'',
      ''write'', ''produce'', ''construct'', ''assemble'', ''compile'', ''organize'']"

text \<open>
  \<open>extractTask\<close>. With no sentence left after the filter, \<open>sentences[0]\<close> is
  \<open>undefined\<close> and the call of \<open>trim\<close> raises a TypeError, here with the message
  Node.js gives it. Both exits of the function return \<open>firstSentence\<close>.
\<close>

definition extractTask :: "string \<Rightarrow> error + string" where
  "extractTask text =
     (case sentences text of
        [] \<Rightarrow> Inl (TypeError ''Cannot read properties of undefined (reading 'trim')'')
      | s # _ \<Rightarrow>
          (let firstSentence = trim s
           in if list_ex (\<lambda>verb. startsWith (toLowerCase firstSentence) (toLowerCase verb)) actionVerbs
              then Inr firstSentence
              else Inr firstSentence))"

definition intentIndicators :: "string list" where
  "intentIndicators =
     [''to'', ''for'', ''so that'', ''in order to'', ''because'', ''since'',
      ''as'', ''while'', ''when'', ''if'', ''although'']"

text \<open>A loop that returns from its body: the first element for which the body returns.\<close>

fun firstSome :: "('a \<Rightarrow> 'b option) \<Rightarrow> 'a list \<Rightarrow> 'b option" where
  "firstSome f [] = None"
| "firstSome f (x # xs) = (case f x of Some y \<Rightarrow> Some y | None \<Rightarrow> firstSome f xs)"

definition intent_step :: "string \<Rightarrow> string \<Rightarrow> string option" where
  "intent_step sentence indicator =
     (if includesStr (toLowerCase sentence) (toLowerCase indicator)
      then (case splitStr sentence indicator of
              p0 # p1 # _ \<Rightarrow> Some (trim p1)
            | _ \<Rightarrow> None)
      else None)"

definition extractIntent :: "string \<Rightarrow> string" where
  "extractIntent text =
     (case firstSome (\<lambda>sentence. firstSome (intent_step sentence) intentIndicators) (sentences text) of
        Some intent \<Rightarrow> intent
      | None \<Rightarrow> ''To fulfill the specified requirements and deliver the requested output'')"

definition dataPatterns :: "atom list list" where
  "dataPatterns =
     [[WordGroup, Spaces, Lit ''data''],
      [WordGroup, Spaces, Lit ''information''],
      [WordGroup, Spaces, Lit ''details''],
      [WordGroup, Spaces, Lit ''specifications'']]"

definition paramPatterns :: "atom list list" where
  "paramPatterns =
     [[WordGroup, Spaces, Lit ''parameters''],
      [WordGroup, Spaces, Lit ''criteria''],
      [WordGroup, Spaces, Lit ''requirements'']]"

definition extractRequiredInputs :: "string \<Rightarrow> string list" where
  "extractRequiredInputs text =
     (let required =
            concat (map (\<lambda>pattern. case matchRe pattern text of
                                       None \<Rightarrow> []
                                     | Some matches \<Rightarrow> [group1 matches @ '' data/information''])
                        dataPatterns)
            @ concat (map (\<lambda>pattern. case matchRe pattern text of
                                         None \<Rightarrow> []
                                       | Some matches \<Rightarrow> [group1 matches @ '' parameters/criteria''])
                          paramPatterns)
      in if length required = 0
         then [''Input text or prompt'', ''Context or background information'']
         else required)"

definition optionalPatterns :: "atom list list" where
  "optionalPatterns =
     [[Lit ''optional'', Spaces, WordGroup],
      [Lit ''if'', Spaces, Lit ''available'', Spaces, WordGroup],
      [WordGroup, Spaces, Lit ''(optional)'']]"

definition extractOptionalInputs :: "string \<Rightarrow> string list" where
  "extractOptionalInputs text =
     concat (map (\<lambda>pattern. map group1 (matchAll pattern text)) optionalPatterns)
     @ [''Additional context'', ''Preferences or style guidelines'']"

text \<open>
  The constraint patterns, each with \<open>pattern.source.replace(/[()]/g, '')\<close>, the text
  of the pattern without its parentheses.
\<close>

definition bare_source :: "string \<Rightarrow> string" where
  "bare_source keyword = keyword @ [CHR 0x5C] @ ''s+'' @ [CHR 0x5C] @ ''w+''"

definition constraintPatterns :: "(string \<times> atom list) list" where
  "constraintPatterns =
     map (\<lambda>keyword. (bare_source keyword, [Lit keyword, Spaces, WordGroup]))
         [''within'', ''limit'', ''maximum'', ''minimum'', ''only'', ''must'', ''should'']"

definition extractConstraints :: "string \<Rightarrow> string list" where
  "extractConstraints text =
     concat (map (\<lambda>(source, pattern).
                    map (\<lambda>matches. source @ '' '' @ group1 matches) (matchAll pattern text))
                 constraintPatterns)
     @ [''Available time and resources'', ''Technical limitations'']"

record outputs =
  primary :: string
  secondary :: "string list"
  format :: string

definition formatPatterns :: "atom list list" where
  "formatPatterns =
     [[WordGroup, Spaces, Lit ''format''],
      [WordGroup, Spaces, Lit ''file''],
      [WordGroup, Spaces, Lit ''output'']]"

definition outputTypes :: "string list" where
  "outputTypes =
     [''report'', ''summary'', ''analysis'', ''list'', ''catalog'', ''database'',
      ''dashboard'', ''interface'', ''document'', ''presentation'']"

text \<open>\<open>type.charAt(0).toUpperCase() + type.slice(1)\<close>, on the ASCII words of \<open>outputTypes\<close>.\<close>

definition capitalize :: "string \<Rightarrow> string" where
  "capitalize t = (case t of [] \<Rightarrow> [] | c # cs \<Rightarrow> upper_char c # cs)"

definition extractOutputs :: "string \<Rightarrow> outputs" where
  "extractOutputs text =
     (let fmt = foldl (\<lambda>fmt pattern. case matchRe pattern text of
                                        None \<Rightarrow> fmt
                                      | Some matches \<Rightarrow> group1 matches)
                      ''JSON'' formatPatterns;
          prim = (case find (\<lambda>t. includesStr (toLowerCase text) (toLowerCase t)) outputTypes of
                    None \<Rightarrow> []
                  | Some t \<Rightarrow> capitalize t);
          prim = (if prim = [] then ''Structured data or information'' else prim)
      in \<lparr> primary = prim,
           secondary = [''Documentation or instructions'', ''Quality assurance metrics''],
           format = fmt \<rparr>)"

record inputs =
  required :: "string list"
  optional :: "string list"
  constraints :: "string list"

record prompt_record =
  task :: string
  intent :: string
  inputs :: inputs
  outputs :: outputs
  clarity_gaps :: "string list"

text \<open>
  The body of the \<open>try\<close> block of \<open>convertPromptToJson\<close>: the first exception ends
  it. Only \<open>extractTask\<close> can raise.
\<close>

definition extractRecord :: "string \<Rightarrow> error + prompt_record" where
  "extractRecord text =
     (case extractTask text of
        Inl e \<Rightarrow> Inl e
      | Inr t \<Rightarrow>
          Inr \<lparr> task = t,
                intent = extractIntent text,
                inputs = \<lparr> required = extractRequiredInputs text,
                           optional = extractOptionalInputs text,
                           constraints = extractConstraints text \<rparr>,
                outputs = extractOutputs text,
                clarity_gaps = map description (gaps (analyzeTextForGaps text)) \<rparr>)"

text \<open>
  The two shapes of the response: \<open>{success: true, data, processing_time_ms}\<close> and
  \<open>{success: false, error, processing_time_ms}\<close>.
\<close>

datatype convert_response =
  Success prompt_record int
| Failure string int

fun success :: "convert_response \<Rightarrow> bool" where
  "success (Success d t) = True"
| "success (Failure e t) = False"

fun processing_time_ms :: "convert_response \<Rightarrow> int" where
  "processing_time_ms (Success d t) = t"
| "processing_time_ms (Failure e t) = t"

fun data :: "convert_response \<Rightarrow> prompt_record option" where
  "data (Success d t) = Some d"
| "data (Failure e t) = None"

fun error_message :: "convert_response \<Rightarrow> string option" where
  "error_message (Success d t) = None"
| "error_message (Failure e t) = Some e"

text \<open>
  \<open>convertPromptToJson\<close>. The two readings of \<open>Date.now()\<close> are parameters:
  \<open>startTime\<close> before the \<open>try\<close> block and \<open>endTime\<close> at its end or in the handler.
\<close>

definition convertPromptToJson :: "int \<Rightarrow> int \<Rightarrow> string \<Rightarrow> convert_response" where
  "convertPromptToJson startTime endTime text =
     (case extractRecord text of
        Inr result \<Rightarrow> Success result (endTime - startTime)
      | Inl e \<Rightarrow> Failure (message e) (endTime - startTime))"

datatype improvement_type = Clarity | Specificity | Structure | Completeness

record improvement =
  improvement_type :: improvement_type
  improvement_description :: string
  before :: string
  after :: string

record refinement =
  refine_success :: bool
  original_prompt :: string
  refined_prompt :: string
  improvements :: "improvement list"

definition subjectiveTerms :: "string list" where
  "subjectiveTerms = [''good'', ''better'', ''best'', ''nice'', ''pretty'', ''cool'']"

text \<open>
  \<open>/\b(good|better|best|nice|pretty|cool)\b/gi\<close> at the start of \<open>s\<close>, the word
  boundary before it apart: the first alternative, in their order, that matches
  without regard to case and is followed by a word boundary. The result is the length
  of the match.
\<close>

definition term_at :: "string \<Rightarrow> nat option" where
  "term_at s =
     map_option length
       (find (\<lambda>w. startsWith (toLowerCase s) w
                  \<and> (case drop (length w) s of [] \<Rightarrow> True | d # _ \<Rightarrow> \<not> is_word d))
             subjectiveTerms)"

text \<open>
  \<open>refinedText.replace(/\b(good|better|best|nice|pretty|cool)\b/gi, 'specific and measurable')\<close>.
  \<open>prevWord\<close> says that the previous character is a word character, so that there
  is no word boundary before a letter; \<open>skip\<close> counts the characters of a replaced
  match still to pass.
\<close>

fun replaceTerms :: "bool \<Rightarrow> nat \<Rightarrow> string \<Rightarrow> string" where
  "replaceTerms prevWord skip [] = []"
| "replaceTerms prevWord skip (c # cs) =
     (if 0 < skip then replaceTerms (is_word c) (skip - 1) cs
      else (case (if prevWord then None else term_at (c # cs)) of
              Some n \<Rightarrow> ''specific and measurable'' @ replaceTerms (is_word c) (n - 1) cs
            | None \<Rightarrow> c # replaceTerms (is_word c) 0 cs))"

definition replaceSubjective :: "string \<Rightarrow> string" where
  "replaceSubjective s = replaceTerms False 0 s"

definition has_category :: "category \<Rightarrow> finding list \<Rightarrow> bool" where
  "has_category c gs = list_ex (\<lambda>gap. category gap = c) gs"

text \<open>
  Each gated step of \<open>refinePrompt\<close> takes and returns the text and the improvements
  so far. The function also computes \<open>generateClaritySuggestions\<close> of the findings and
  does not use the result.
\<close>

definition context_fix :: "string \<times> improvement list \<Rightarrow> string \<times> improvement list" where
  "context_fix = (\<lambda>(refinedText, imps).
     (let before = refinedText;
          refinedText = ''Context: This request is for [specify context]. '' @ refinedText
      in (refinedText,
          imps @ [\<lparr> improvement_type = Clarity,
                    improvement_description = ''Added context section'',
                    before = before, after = refinedText \<rparr>])))"

definition ambiguity_fix :: "string \<times> improvement list \<Rightarrow> string \<times> improvement list" where
  "ambiguity_fix = (\<lambda>(refinedText, imps).
     (let before = refinedText;
          refinedText = replaceSubjective refinedText
      in (refinedText,
          imps @ [\<lparr> improvement_type = Specificity,
                    improvement_description = ''Replaced subjective terms with objective criteria'',
                    before = before, after = refinedText \<rparr>])))"

definition output_fix :: "string \<times> improvement list \<Rightarrow> string \<times> improvement list" where
  "output_fix = (\<lambda>(refinedText, imps).
     (let before = refinedText;
          refinedText = refinedText @ '' The output should be in [specific format] with [specific structure] and include [specific content].''
      in (refinedText,
          imps @ [\<lparr> improvement_type = Structure,
                    improvement_description = ''Added specific output requirements'',
                    before = before, after = refinedText \<rparr>])))"

definition constraints_fix :: "string \<times> improvement list \<Rightarrow> string \<times> improvement list" where
  "constraints_fix = (\<lambda>(refinedText, imps).
     (let before = refinedText;
          refinedText = refinedText @ '' Constraints: [specify time limits, resource constraints, technical limitations].''
      in (refinedText,
          imps @ [\<lparr> improvement_type = Completeness,
                    improvement_description = ''Added constraints section'',
                    before = before, after = refinedText \<rparr>])))"

definition gated :: "bool \<Rightarrow> ('a \<Rightarrow> 'a) \<Rightarrow> 'a \<Rightarrow> 'a" where
  "gated b f x = (if b then f x else x)"

definition refinePrompt :: "string \<Rightarrow> refinement" where
  "refinePrompt text =
     (let gs = gaps (analyzeTextForGaps text);
          st = (text, []);
          st = gated (has_category missing_context gs) context_fix st;
          st = gated (has_category ambiguous_requirement gs) ambiguity_fix st;
          st = gated (has_category unclear_output gs) output_fix st;
          st = gated (has_category missing_constraints gs) constraints_fix st
      in \<lparr> refine_success = True,
           original_prompt = text,
           refined_prompt = fst st,
           improvements = snd st \<rparr>)"

section \<open>Properties of the gap analysis\<close>

subsection \<open>Removing duplicates\<close>

lemma findIndex_range: "findIndex P xs = - 1 \<or> 0 \<le> findIndex P xs"
  by (induction xs) (auto simp: Let_def)

lemma findIndex_eq_iff:
  "findIndex P xs = int i \<longleftrightarrow> i < length xs \<and> P (xs ! i) \<and> (\<forall>j < i. \<not> P (xs ! j))"
proof (induction xs arbitrary: i)
  case Nil
  then show ?case by simp
next
  case (Cons x xs)
  show ?case
  proof (cases "P x")
    case True
    then show ?thesis by (cases i) auto
  next
    case False
    show ?thesis
    proof (cases i)
      case 0
      with False findIndex_range[of P xs] show ?thesis by (auto simp: Let_def)
    next
      case (Suc m)
      have "findIndex P (x # xs) = int (Suc m) \<longleftrightarrow> findIndex P xs = int m"
        using False findIndex_range[of P xs] by (auto simp: Let_def)
      also have "\<dots> \<longleftrightarrow> m < length xs \<and> P (xs ! m) \<and> (\<forall>j < m. \<not> P (xs ! j))"
        by (rule Cons.IH)
      also have "\<dots> \<longleftrightarrow> Suc m < length (x # xs) \<and> P ((x # xs) ! Suc m)
                     \<and> (\<forall>j < Suc m. \<not> P ((x # xs) ! j))"
        using False by (auto simp: less_Suc_eq_0_disj)
      finally show ?thesis using Suc by simp
    qed
  qed
qed

lemma filter_zip_indices:
  "map fst (filter (\<lambda>(x, i). Q x i) (zip xs [0 ..< length xs]))
   = map ((!) xs) (filter (\<lambda>i. Q (xs ! i) i) [0 ..< length xs])"
proof -
  have "zip xs [0 ..< length xs] = map (\<lambda>i. (xs ! i, i)) [0 ..< length xs]"
    by (rule nth_equalityI) auto
  then show ?thesis by (simp add: filter_map comp_def)
qed

text \<open>The filter keeps the positions that no equal description precedes.\<close>

lemma uniqueGaps_first:
  "uniqueGaps gs = map ((!) gs)
     (filter (\<lambda>i. \<forall>j < i. description (gs ! j) \<noteq> description (gs ! i)) [0 ..< length gs])"
proof -
  have "uniqueGaps gs = map ((!) gs)
      (filter (\<lambda>i. int i = findIndex (\<lambda>g. description g = description (gs ! i)) gs)
              [0 ..< length gs])"
    unfolding uniqueGaps_def by (rule filter_zip_indices)
  also have "\<dots> = map ((!) gs)
     (filter (\<lambda>i. \<forall>j < i. description (gs ! j) \<noteq> description (gs ! i)) [0 ..< length gs])"
    by (rule arg_cong[where f = "map ((!) gs)"], rule filter_cong)
       (auto simp: findIndex_eq_iff eq_commute[of "int _"])
  finally show ?thesis .
qed

lemma distinct_uniqueGaps: "distinct (map description (uniqueGaps gs))"
proof -
  let ?F = "\<lambda>i. \<forall>j < i. description (gs ! j) \<noteq> description (gs ! i)"
  have "inj_on (\<lambda>i. description (gs ! i)) (set (filter ?F [0 ..< length gs]))"
  proof (rule inj_onI)
    fix i j
    assume "i \<in> set (filter ?F [0 ..< length gs])" "j \<in> set (filter ?F [0 ..< length gs])"
      and eq: "description (gs ! i) = description (gs ! j)"
    then have "?F i" "?F j" by auto
    with eq show "i = j" by (metis linorder_neqE_nat)
  qed
  then have "distinct (map (\<lambda>i. description (gs ! i)) (filter ?F [0 ..< length gs]))"
    by (simp add: distinct_map)
  then show ?thesis by (simp add: uniqueGaps_first comp_def)
qed

lemma set_uniqueGaps: "set (uniqueGaps gs) \<subseteq> set gs"
  unfolding uniqueGaps_def by (auto dest: set_zip_leftD)

lemma uniqueGaps_example:
  "uniqueGaps [ambiguity_gap ''good'', output_gap ''data'', ambiguity_gap ''good'']
   = [ambiguity_gap ''good'', output_gap ''data'']"
  by code_simp

lemma gaps_analyzeTextForGaps: "gaps (analyzeTextForGaps text) = uniqueGaps (allGaps text)"
  by (simp add: analyzeTextForGaps_def Let_def)

subsection \<open>What the four rules emit\<close>

lemma context_step_cases:
  "context_step s i ind = [] \<or> context_step s i ind = [context_gap ind i]"
  unfolding context_step_def by (simp add: Let_def split: list.split)

lemma findMissingContext_member:
  assumes "g \<in> set (findMissingContext text)"
  shows "\<exists>i ind. g = context_gap ind i"
proof -
  from assms obtain s i ind where "g \<in> set (context_step s i ind)"
    unfolding findMissingContext_def by auto
  with context_step_cases[of s i ind] have "g = context_gap ind i" by auto
  then show ?thesis by blast
qed

lemma findAmbiguousRequirements_member:
  assumes "g \<in> set (findAmbiguousRequirements text)"
  shows "\<exists>ind. g = ambiguity_gap ind"
proof -
  from assms obtain ind where
    "g \<in> set (if includesStr (toLowerCase text) (toLowerCase ind) then [ambiguity_gap ind] else [])"
    unfolding findAmbiguousRequirements_def by auto
  then have "g = ambiguity_gap ind" by (simp split: if_splits)
  then show ?thesis by blast
qed

lemma findUnclearOutputs_member:
  assumes "g \<in> set (findUnclearOutputs text)"
  shows "\<exists>ind. g = output_gap ind"
proof -
  from assms obtain ind where
    "g \<in> set (if includesStr (toLowerCase text) (toLowerCase ind) then [output_gap ind] else [])"
    unfolding findUnclearOutputs_def by auto
  then have "g = output_gap ind" by (simp split: if_splits)
  then show ?thesis by blast
qed

lemma findMissingConstraints_member:
  assumes "g \<in> set (findMissingConstraints text)"
  shows "\<exists>ind. g = constraint_gap ind"
proof -
  from assms obtain ind where
    "g \<in> set (if includesStr (toLowerCase text) (toLowerCase ind) then [constraint_gap ind] else [])"
    unfolding findMissingConstraints_def by auto
  then have "g = constraint_gap ind" by (simp split: if_splits)
  then show ?thesis by blast
qed

lemma allGaps_member:
  assumes "g \<in> set (allGaps text)"
  shows "(\<exists>i ind. g = context_gap ind i) \<or> (\<exists>ind. g = ambiguity_gap ind)
         \<or> (\<exists>ind. g = output_gap ind) \<or> (\<exists>ind. g = constraint_gap ind)"
proof -
  from assms consider "g \<in> set (findMissingContext text)"
    | "g \<in> set (findAmbiguousRequirements text)"
    | "g \<in> set (findUnclearOutputs text)"
    | "g \<in> set (findMissingConstraints text)"
    unfolding allGaps_def by auto
  then show ?thesis
  proof cases
    case 1 then show ?thesis using findMissingContext_member by blast
  next
    case 2 then show ?thesis using findAmbiguousRequirements_member by blast
  next
    case 3 then show ?thesis using findUnclearOutputs_member by blast
  next
    case 4 then show ?thesis using findMissingConstraints_member by blast
  qed
qed

lemma allGaps_severity:
  assumes "g \<in> set (allGaps text)"
  shows "severity g = (if category g = ambiguous_requirement then high else medium)"
proof -
  from allGaps_member[OF assms] consider
      i ind where "g = context_gap ind i"
    | ind where "g = ambiguity_gap ind"
    | ind where "g = output_gap ind"
    | ind where "g = constraint_gap ind"
    by blast
  then show ?thesis
  proof cases
    case 1 then show ?thesis by (simp add: context_gap_def)
  next
    case 2 then show ?thesis by (simp add: ambiguity_gap_def)
  next
    case 3 then show ?thesis by (simp add: output_gap_def)
  next
    case 4 then show ?thesis by (simp add: constraint_gap_def)
  qed
qed

subsection \<open>The analysis of two sample texts\<close>

lemma analysis_make_something_good:
  "analyzeTextForGaps ''Make something good'' =
     \<lparr> gaps = [ambiguity_gap ''good'', output_gap ''something''], overall_clarity_score = 60 \<rparr>"
  by code_simp

lemma allGaps_make_something_good:
  "allGaps ''Make something good'' = [ambiguity_gap ''good'', output_gap ''something'']"
  by code_simp

subsection \<open>The score\<close>

lemma calculateClarityScore_formula:
  "calculateClarityScore text gs =
     max 0 (min 100 (100 - int (length gs) * 15
                         - int (length (filter (\<lambda>g. severity g = high) gs)) * 10
                         + (if 20 < wordCount text then 5 else 0)
                         + (if 50 < wordCount text then 10 else 0)))"
  unfolding calculateClarityScore_def Let_def
  by (cases "20 < wordCount text"; cases "50 < wordCount text";
      simp only: if_True if_False; linarith)

lemma calculateClarityScore_bounds:
  "0 \<le> calculateClarityScore text gs \<and> calculateClarityScore text gs \<le> 100"
  unfolding calculateClarityScore_formula by linarith

text \<open>
  C4. The findings of an analysis have pairwise different descriptions, and they are
  the findings of the four rules, taken in the order context, ambiguity, output,
  constraints, at exactly the positions that no finding with the same description
  precedes, in their order.
\<close>

theorem analysis_gaps_unique_in_first_occurrence_order:
  "distinct (map description (gaps (analyzeTextForGaps text)))
   \<and> allGaps text = findMissingContext text @ findAmbiguousRequirements text
                     @ findUnclearOutputs text @ findMissingConstraints text
   \<and> gaps (analyzeTextForGaps text) =
       map ((!) (allGaps text))
         (filter (\<lambda>i. \<forall>j < i. description (allGaps text ! j) \<noteq> description (allGaps text ! i))
                 [0 ..< length (allGaps text)])"
  unfolding gaps_analyzeTextForGaps
  using distinct_uniqueGaps[of "allGaps text"] uniqueGaps_first[of "allGaps text"]
  by (simp add: allGaps_def)

theorem analysis_gaps_unique_witness:
  "distinct (map description (gaps (analyzeTextForGaps ''Make something good'')))
   \<and> allGaps ''Make something good'' = [ambiguity_gap ''good'', output_gap ''something'']
   \<and> gaps (analyzeTextForGaps ''Make something good'') =
       map ((!) (allGaps ''Make something good''))
         (filter (\<lambda>i. \<forall>j < i. description (allGaps ''Make something good'' ! j)
                               \<noteq> description (allGaps ''Make something good'' ! i))
                 [0 ..< length (allGaps ''Make something good'')])"
proof -
  note t = analysis_gaps_unique_in_first_occurrence_order[of "''Make something good''"]
  from t have "distinct (map description (gaps (analyzeTextForGaps ''Make something good'')))"
    by (rule conjunct1)
  moreover from t have "gaps (analyzeTextForGaps ''Make something good'') =
       map ((!) (allGaps ''Make something good''))
         (filter (\<lambda>i. \<forall>j < i. description (allGaps ''Make something good'' ! j)
                               \<noteq> description (allGaps ''Make something good'' ! i))
                 [0 ..< length (allGaps ''Make something good'')])"
    by (rule conjunct2[THEN conjunct2])
  ultimately show ?thesis
    using allGaps_make_something_good by (intro conjI)
qed

text \<open>
  C10. Every finding of the four rules, and so of an analysis, has severity
  \<open>high\<close> when its category is \<open>ambiguous_requirement\<close> and \<open>medium\<close> otherwise;
  none has severity \<open>low\<close>.
\<close>

theorem severity_follows_category:
  assumes "g \<in> set (allGaps text) \<union> set (gaps (analyzeTextForGaps text))"
  shows "severity g = (if category g = ambiguous_requirement then high else medium)
         \<and> severity g \<noteq> low"
proof -
  from assms have "g \<in> set (allGaps text)"
    using set_uniqueGaps[of "allGaps text"] by (auto simp: gaps_analyzeTextForGaps)
  from allGaps_severity[OF this] show ?thesis by simp
qed

theorem severity_follows_category_witness:
  "ambiguity_gap ''good'' \<in> set (allGaps ''Make something good'')
                            \<union> set (gaps (analyzeTextForGaps ''Make something good''))
   \<and> severity (ambiguity_gap ''good'') = high
   \<and> category (ambiguity_gap ''good'') = ambiguous_requirement
   \<and> severity (ambiguity_gap ''good'') \<noteq> low"
proof -
  have m: "ambiguity_gap ''good'' \<in> set (allGaps ''Make something good'')
                            \<union> set (gaps (analyzeTextForGaps ''Make something good''))"
    by (simp add: allGaps_make_something_good)
  have c: "category (ambiguity_gap ''good'') = ambiguous_requirement"
    by (simp add: ambiguity_gap_def)
  from severity_follows_category[OF m] c m show ?thesis by simp
qed

text \<open>
  C7. For the text "Make something good" the analysis reports the finding of
  category \<open>ambiguous_requirement\<close> for "good" and the finding of category
  \<open>unclear_output\<close> for "something", and the score is 60, below 100.
\<close>

theorem make_something_good_findings:
  "ambiguity_gap ''good'' \<in> set (gaps (analyzeTextForGaps ''Make something good''))
   \<and> category (ambiguity_gap ''good'') = ambiguous_requirement
   \<and> description (ambiguity_gap ''good'') = ''Vague requirement: '' @ dquote ''good''
   \<and> output_gap ''something'' \<in> set (gaps (analyzeTextForGaps ''Make something good''))
   \<and> category (output_gap ''something'') = unclear_output
   \<and> description (output_gap ''something'') = ''Unclear output: '' @ dquote ''something''
   \<and> overall_clarity_score (analyzeTextForGaps ''Make something good'') = 60
   \<and> overall_clarity_score (analyzeTextForGaps ''Make something good'') < 100"
  by (simp add: analysis_make_something_good ambiguity_gap_def output_gap_def)

section \<open>Strings and numbers\<close>

subsection \<open>String lemmas\<close>

lemma startsWith_append: "startsWith s p \<longleftrightarrow> (\<exists>r. s = p @ r)"
  by (induction s p rule: startsWith.induct) auto

lemma startsWith_toLowerCase:
  "startsWith s p \<Longrightarrow> startsWith (toLowerCase s) (toLowerCase p)"
  by (auto simp: startsWith_append toLowerCase_def)

lemma indexOf_Some_iff:
  "indexOf s sub = Some k \<longleftrightarrow>
     k \<le> length s \<and> startsWith (drop k s) sub \<and> (\<forall>j < k. \<not> startsWith (drop j s) sub)"
proof (induction s arbitrary: k)
  case Nil
  then show ?case by (cases sub) auto
next
  case (Cons c cs)
  show ?case
  proof (cases "startsWith (c # cs) sub")
    case True
    then show ?thesis by (cases k) auto
  next
    case False
    show ?thesis
    proof (cases k)
      case 0
      with False show ?thesis by simp
    next
      case (Suc m)
      have "indexOf (c # cs) sub = Some (Suc m) \<longleftrightarrow> indexOf cs sub = Some m"
        using False by auto
      also have "\<dots> \<longleftrightarrow> m \<le> length cs \<and> startsWith (drop m cs) sub
                       \<and> (\<forall>j < m. \<not> startsWith (drop j cs) sub)"
        by (rule Cons.IH)
      also have "\<dots> \<longleftrightarrow> Suc m \<le> length (c # cs) \<and> startsWith (drop (Suc m) (c # cs)) sub
                       \<and> (\<forall>j < Suc m. \<not> startsWith (drop j (c # cs)) sub)"
        using False by (auto simp: less_Suc_eq_0_disj)
      finally show ?thesis using Suc by simp
    qed
  qed
qed

lemma includesStr_indexOf: "includesStr s sub \<longleftrightarrow> indexOf s sub \<noteq> None"
  by (induction s) auto

lemma splitSep_first:
  assumes "sep \<noteq> []"
  shows "\<exists>ps. splitSep sep 0 s = (case indexOf s sep of None \<Rightarrow> s | Some k \<Rightarrow> take k s) # ps"
proof (induction s)
  case Nil
  with assms show ?case by simp
next
  case (Cons c cs)
  then obtain ps where
    ih: "splitSep sep 0 cs = (case indexOf cs sep of None \<Rightarrow> cs | Some k \<Rightarrow> take k cs) # ps"
    by blast
  show ?case
  proof (cases "startsWith (c # cs) sep")
    case True
    then show ?thesis by simp
  next
    case False
    then show ?thesis using ih by (auto simp: cons_hd_def split: option.split)
  qed
qed

lemma splitStr_first:
  assumes "sep \<noteq> []"
  shows "\<exists>ps. splitStr s sep = (case indexOf s sep of None \<Rightarrow> s | Some k \<Rightarrow> take k s) # ps"
  using splitSep_first[OF assms] assms by (simp add: splitStr_def)

lemma splitStr_not_Nil: "sep \<noteq> [] \<Longrightarrow> splitStr s sep \<noteq> []"
  using splitStr_first[of sep s] by auto

subsection \<open>Printing numbers\<close>

lemma digits_small: "n < 10 \<Longrightarrow> digits n = [char_of (48 + n)]"
  by (subst digits.simps) simp

lemma digits_large:
  "\<not> n < 10 \<Longrightarrow> digits n = digits (n div 10) @ [char_of (48 + n mod 10)]"
  by (subst digits.simps) simp

lemma length_digits: "0 < length (digits n)"
  by (cases "n < 10") (simp_all add: digits_small digits_large)

lemma digit_char_inj:
  assumes "a < 10" "b < 10" "char_of (48 + a) = (char_of (48 + b) :: char)"
  shows "a = (b::nat)"
proof -
  from assms(3)
  have "of_char (char_of (48 + a) :: char) = (of_char (char_of (48 + b) :: char) :: nat)"
    by (rule arg_cong)
  with assms(1,2) show ?thesis by (simp add: of_char_of)
qed

lemma digits_inj: "digits n = digits m \<Longrightarrow> n = m"
proof (induction n arbitrary: m rule: digits.induct)
  case (1 n)
  show ?case
  proof (cases "n < 10")
    case n: True
    show ?thesis
    proof (cases "m < 10")
      case True
      from "1.prems" have "char_of (48 + n) = (char_of (48 + m) :: char)"
        by (simp add: digits_small[OF n] digits_small[OF True])
      then show ?thesis by (rule digit_char_inj[OF n True])
    next
      case False
      from "1.prems" have "length (digits n) = length (digits m)" by (rule arg_cong)
      then have "1 = length (digits (m div 10)) + 1"
        by (simp add: digits_small[OF n] digits_large[OF False])
      with length_digits[of "m div 10"] show ?thesis by simp
    qed
  next
    case n: False
    show ?thesis
    proof (cases "m < 10")
      case True
      from "1.prems" have "length (digits n) = length (digits m)" by (rule arg_cong)
      then have "length (digits (n div 10)) + 1 = 1"
        by (simp add: digits_small[OF True] digits_large[OF n])
      with length_digits[of "n div 10"] show ?thesis by simp
    next
      case False
      from "1.prems"
      have "digits (n div 10) @ [char_of (48 + n mod 10)]
            = digits (m div 10) @ [char_of (48 + m mod 10)]"
        by (simp only: digits_large[OF n] digits_large[OF False])
      then have d: "digits (n div 10) = digits (m div 10)"
        and c: "char_of (48 + n mod 10) = (char_of (48 + m mod 10) :: char)"
        by simp_all
      from "1.IH"[OF n d] have q: "n div 10 = m div 10" .
      have "n mod 10 < 10" "m mod 10 < 10" by simp_all
      from digit_char_inj[OF this c] have r: "n mod 10 = m mod 10" .
      have "n = 10 * (n div 10) + n mod 10" by simp
      also have "\<dots> = 10 * (m div 10) + m mod 10" by (simp only: q r)
      also have "\<dots> = m" by simp
      finally show ?thesis .
    qed
  qed
qed

lemma context_gap_inj:
  assumes "context_gap ind i = context_gap ind' i'"
  shows "ind = ind' \<and> i = i'"
proof -
  from assms have "suggestion (context_gap ind i) = suggestion (context_gap ind' i')"
    by (rule arg_cong)
  then have ind: "ind = ind'" by (simp add: context_gap_def dquote_def)
  from assms have "description (context_gap ind i) = description (context_gap ind' i')"
    by (rule arg_cong)
  with ind have "digits (i + 1) = digits (i' + 1)" by (simp add: context_gap_def)
  then have "i + 1 = i' + 1" by (rule digits_inj)
  with ind show ?thesis by simp
qed

subsection \<open>The missing-context rule\<close>

lemma context_indicators_all_lower:
  "list_all (\<lambda>ind. toLowerCase ind = ind \<and> ind \<noteq> []) CONTEXT_INDICATORS"
  by code_simp

lemma context_indicators_lower:
  "ind \<in> set CONTEXT_INDICATORS \<Longrightarrow> toLowerCase ind = ind \<and> ind \<noteq> []"
  using context_indicators_all_lower by (simp add: list_all_iff)

lemma context_step_emits:
  assumes "ind \<noteq> []"
  shows "context_step s i ind = [context_gap ind i] \<longleftrightarrow>
           includesStr (toLowerCase s) (toLowerCase ind)
           \<and> length (trim (case indexOf s ind of None \<Rightarrow> s | Some k \<Rightarrow> take k s)) < 10"
proof -
  from splitStr_first[OF assms, of s] obtain ps where
    "splitStr s ind = (case indexOf s ind of None \<Rightarrow> s | Some k \<Rightarrow> take k s) # ps"
    by blast
  then show ?thesis by (simp add: context_step_def Let_def)
qed

lemma findMissingContext_emits:
  "context_gap ind i \<in> set (findMissingContext text) \<longleftrightarrow>
     i < length (sentences text) \<and> ind \<in> set CONTEXT_INDICATORS
     \<and> context_step (sentences text ! i) i ind = [context_gap ind i]"
proof
  assume "context_gap ind i \<in> set (findMissingContext text)"
  then obtain s j ind' where
    z: "(s, j) \<in> set (zip (sentences text) [0 ..< length (sentences text)])"
    and m: "ind' \<in> set CONTEXT_INDICATORS"
    and g: "context_gap ind i \<in> set (context_step s j ind')"
    unfolding findMissingContext_def by auto
  from g context_step_cases[of s j ind']
  have st: "context_step s j ind' = [context_gap ind' j]"
    and eq: "context_gap ind i = context_gap ind' j" by auto
  from context_gap_inj[OF eq] have "ind = ind'" "i = j" by simp_all
  moreover from z have "j < length (sentences text)" "s = sentences text ! j"
    by (auto simp: set_zip)
  ultimately show "i < length (sentences text) \<and> ind \<in> set CONTEXT_INDICATORS
     \<and> context_step (sentences text ! i) i ind = [context_gap ind i]"
    using m st by simp
next
  assume a: "i < length (sentences text) \<and> ind \<in> set CONTEXT_INDICATORS
     \<and> context_step (sentences text ! i) i ind = [context_gap ind i]"
  then have "(sentences text ! i, i) \<in> set (zip (sentences text) [0 ..< length (sentences text)])"
    by (auto simp: set_zip)
  with a show "context_gap ind i \<in> set (findMissingContext text)"
    unfolding findMissingContext_def by force
qed

text \<open>
  When the first occurrence of the indicator, case ignored, is spelled as the
  indicator itself, \<open>split\<close> cuts the sentence there.
\<close>

lemma indexOf_exact:
  assumes low: "toLowerCase ind = ind"
    and k: "indexOf (toLowerCase s) ind = Some k"
    and ex: "startsWith (drop k s) ind"
  shows "indexOf s ind = Some k"
proof -
  from k have kl: "k \<le> length s"
    and first: "\<forall>j < k. \<not> startsWith (drop j (toLowerCase s)) ind"
    by (simp_all add: indexOf_Some_iff toLowerCase_def)
  have "\<not> startsWith (drop j s) ind" if "j < k" for j
  proof
    assume "startsWith (drop j s) ind"
    from startsWith_toLowerCase[OF this] low
    have "startsWith (drop j (toLowerCase s)) ind" by (simp add: toLowerCase_def drop_map)
    with first that show False by blast
  qed
  with kl ex show ?thesis by (simp add: indexOf_Some_iff)
qed

lemma indexOf_lower_None:
  assumes low: "toLowerCase ind = ind" and n: "indexOf (toLowerCase s) ind = None"
  shows "indexOf s ind = None"
proof (rule ccontr)
  assume "indexOf s ind \<noteq> None"
  then obtain k where "indexOf s ind = Some k" by blast
  then have "k \<le> length s" "startsWith (drop k s) ind" by (simp_all add: indexOf_Some_iff)
  from startsWith_toLowerCase[OF this(2)] low
  have "startsWith (drop k (toLowerCase s)) ind" by (simp add: toLowerCase_def drop_map)
  then have "includesStr (toLowerCase s) ind"
    using \<open>k \<le> length s\<close>
  proof (induction k arbitrary: s)
    case 0
    then show ?case by (cases "toLowerCase s") (auto simp: startsWith_append)
  next
    case (Suc k)
    then show ?case by (cases s) (auto simp: toLowerCase_def)
  qed
  with n show False by (simp add: includesStr_indexOf)
qed

text \<open>
  C2, as amended. Take a sentence of the text (a piece between runs of \<open>.\<close>,
  \<open>!\<close>, \<open>?\<close> that is not blank, counted from 0 here and from 1 in the description)
  and an indicator of the list, such that the first occurrence of the indicator in the
  sentence, case ignored, is written as in the list. The finding of category
  \<open>missing_context\<close> and severity \<open>medium\<close> that names this indicator and this sentence
  is emitted exactly when the sentence contains the indicator, case ignored, and the
  text before that first occurrence, with the white space at its two ends removed, is
  shorter than 10 characters.
\<close>

theorem missing_context_rule:
  assumes "i < length (sentences text)"
    and "indicator \<in> set CONTEXT_INDICATORS"
    and "\<forall>k. indexOf (toLowerCase (sentences text ! i)) indicator = Some k
             \<longrightarrow> startsWith (drop k (sentences text ! i)) indicator"
  shows "(context_gap indicator i \<in> set (findMissingContext text) \<longleftrightarrow>
            (\<exists>k. indexOf (toLowerCase (sentences text ! i)) indicator = Some k
                 \<and> length (trim (take k (sentences text ! i))) < 10))
         \<and> category (context_gap indicator i) = missing_context
         \<and> severity (context_gap indicator i) = medium
         \<and> description (context_gap indicator i) =
             ''Unclear reference to '' @ dquote indicator @ '' in sentence '' @ digits (i + 1)"
proof -
  let ?s = "sentences text ! i"
  from context_indicators_lower[OF assms(2)]
  have low: "toLowerCase indicator = indicator" and ne: "indicator \<noteq> []" by simp_all
  have emit: "context_gap indicator i \<in> set (findMissingContext text) \<longleftrightarrow>
      includesStr (toLowerCase ?s) indicator
      \<and> length (trim (case indexOf ?s indicator of None \<Rightarrow> ?s | Some k \<Rightarrow> take k ?s)) < 10"
    using assms(1,2) by (simp add: findMissingContext_emits context_step_emits[OF ne] low)
  have "context_gap indicator i \<in> set (findMissingContext text) \<longleftrightarrow>
            (\<exists>k. indexOf (toLowerCase ?s) indicator = Some k \<and> length (trim (take k ?s)) < 10)"
  proof (cases "indexOf (toLowerCase ?s) indicator")
    case None
    then show ?thesis by (simp add: emit includesStr_indexOf)
  next
    case (Some k)
    with assms(3) have "startsWith (drop k ?s) indicator" by blast
    from indexOf_exact[OF low Some this] have "indexOf ?s indicator = Some k" .
    with Some show ?thesis by (simp add: emit includesStr_indexOf)
  qed
  then show ?thesis by (simp add: context_gap_def)
qed

lemma sentences_hello: "sentences ''Hello, is it done'' = [''Hello, is it done'']"
  by code_simp

lemma indexOf_hello: "indexOf (toLowerCase ''Hello, is it done'') ''it'' = Some 10"
  by code_simp

lemma findMissingContext_hello:
  "findMissingContext ''Hello, is it done'' = [context_gap ''it'' 0]"
  by code_simp

lemma sentences_fix: "sentences ''Fix IT now and then ok'' = [''Fix IT now and then ok'']"
  by code_simp

lemma indexOf_fix: "indexOf (toLowerCase ''Fix IT now and then ok'') ''it'' = Some 4"
  by code_simp

lemma findMissingContext_fix: "findMissingContext ''Fix IT now and then ok'' = []"
  by code_simp

theorem missing_context_rule_witness:
  "0 < length (sentences ''Hello, is it done'')
   \<and> ''it'' \<in> set CONTEXT_INDICATORS
   \<and> indexOf (toLowerCase (sentences ''Hello, is it done'' ! 0)) ''it'' = Some 10
   \<and> startsWith (drop 10 (sentences ''Hello, is it done'' ! 0)) ''it''
   \<and> length (trim (take 10 (sentences ''Hello, is it done'' ! 0))) = 9
   \<and> context_gap ''it'' 0 \<in> set (findMissingContext ''Hello, is it done'')"
proof -
  have a: "0 < length (sentences ''Hello, is it done'')"
    by (simp add: sentences_hello)
  have b: "''it'' \<in> set CONTEXT_INDICATORS"
    by (simp add: CONTEXT_INDICATORS_def)
  have k: "indexOf (toLowerCase (sentences ''Hello, is it done'' ! 0)) ''it'' = Some 10"
    by (simp only: sentences_hello nth_Cons_0 indexOf_hello)
  have e: "startsWith (drop 10 (sentences ''Hello, is it done'' ! 0)) ''it''"
    by (simp add: sentences_hello)
  have t: "length (trim (take 10 (sentences ''Hello, is it done'' ! 0))) = 9"
    unfolding sentences_hello by code_simp
  have c: "\<forall>k. indexOf (toLowerCase (sentences ''Hello, is it done'' ! 0)) ''it'' = Some k
             \<longrightarrow> startsWith (drop k (sentences ''Hello, is it done'' ! 0)) ''it''"
    using k e by simp
  from missing_context_rule[OF a b c] k t
  have "context_gap ''it'' 0 \<in> set (findMissingContext ''Hello, is it done'')"
    by simp
  with a b k e t show ?thesis by simp
qed

text \<open>
  The statement of C2 itself fails in both directions. In "Fix IT now and then ok"
  the indicator "it" occurs, case ignored, after 4 characters, and no finding is
  emitted: \<open>split\<close> looks for "it" as written and finds none, so the whole sentence
  counts as the text before it. In "Hello, is it done" the 10 characters "Hello, is "
  precede "it", and the finding is emitted: the text is trimmed to 9 characters first.
\<close>

theorem missing_context_rule_counterexample:
  "sentences ''Fix IT now and then ok'' = [''Fix IT now and then ok'']
   \<and> indexOf (toLowerCase ''Fix IT now and then ok'') ''it'' = Some 4
   \<and> length (take 4 ''Fix IT now and then ok'') < 10
   \<and> findMissingContext ''Fix IT now and then ok'' = []
   \<and> sentences ''Hello, is it done'' = [''Hello, is it done'']
   \<and> indexOf (toLowerCase ''Hello, is it done'') ''it'' = Some 10
   \<and> length (take 10 ''Hello, is it done'') = 10
   \<and> findMissingContext ''Hello, is it done'' = [context_gap ''it'' 0]"
  by (simp add: sentences_fix indexOf_fix findMissingContext_fix
        sentences_hello indexOf_hello findMissingContext_hello)

subsection \<open>The word count of the score\<close>

lemma wordCount_canvas:
  "wordCount ''Draw one red circle and two blue squares on a plain canvas and then save every shape as a png'' = 20"
  by code_simp

lemma analysis_canvas:
  "analyzeTextForGaps ''Draw one red circle and two blue squares on a plain canvas and then save every shape as a png''
   = \<lparr> gaps = [constraint_gap ''every''], overall_clarity_score = 85 \<rparr>"
  by code_simp

lemma pieces_canvas_space:
  "splitRe is_space ''Draw one red circle and two blue squares on a plain canvas and then save every shape as a png ''
   = [''Draw'', ''one'', ''red'', ''circle'', ''and'', ''two'', ''blue'', ''squares'', ''on'', ''a'',
      ''plain'', ''canvas'', ''and'', ''then'', ''save'', ''every'', ''shape'', ''as'', ''a'', ''png'', '''']"
  by code_simp

lemma analysis_canvas_space:
  "analyzeTextForGaps ''Draw one red circle and two blue squares on a plain canvas and then save every shape as a png ''
   = \<lparr> gaps = [constraint_gap ''every''], overall_clarity_score = 90 \<rparr>"
  by code_simp

lemma wordCount_canvas_space:
  "wordCount ''Draw one red circle and two blue squares on a plain canvas and then save every shape as a png '' = 21"
  by code_simp

lemma severity_constraint_gap: "severity (constraint_gap ind) = medium"
  by (simp add: constraint_gap_def)

text \<open>
  C1. The score is 100, less 15 for each finding, less 10 more for each finding of
  severity \<open>high\<close>, plus 5 and 10 for more than 20 and more than 50 words, brought
  into the range from 0 to 100 (lemmas \<open>calculateClarityScore_formula\<close> and
  \<open>calculateClarityScore_bounds\<close>). But \<open>wordCount\<close> is the number of pieces of
  \<open>text.split(/\s+/)\<close>, and white space at the start or at the end of the text adds
  an empty piece to the words between. The text below has 20 words and one finding of
  severity \<open>medium\<close>, and its score is 85; with a space after its last word it still
  has 20 words, \<open>wordCount\<close> is 21, and the score is 90.
\<close>

theorem clarity_score_counts_empty_piece:
  "wordCount ''Draw one red circle and two blue squares on a plain canvas and then save every shape as a png'' = 20
   \<and> analyzeTextForGaps ''Draw one red circle and two blue squares on a plain canvas and then save every shape as a png''
       = \<lparr> gaps = [constraint_gap ''every''], overall_clarity_score = 85 \<rparr>
   \<and> splitRe is_space ''Draw one red circle and two blue squares on a plain canvas and then save every shape as a png ''
       = [''Draw'', ''one'', ''red'', ''circle'', ''and'', ''two'', ''blue'', ''squares'', ''on'', ''a'',
          ''plain'', ''canvas'', ''and'', ''then'', ''save'', ''every'', ''shape'', ''as'', ''a'', ''png'', '''']
   \<and> wordCount ''Draw one red circle and two blue squares on a plain canvas and then save every shape as a png '' = 21
   \<and> analyzeTextForGaps ''Draw one red circle and two blue squares on a plain canvas and then save every shape as a png ''
       = \<lparr> gaps = [constraint_gap ''every''], overall_clarity_score = 90 \<rparr>
   \<and> severity (constraint_gap ''every'') = medium"
  by (intro conjI)
     (rule wordCount_canvas analysis_canvas pieces_canvas_space wordCount_canvas_space
           analysis_canvas_space severity_constraint_gap)+

lemma analysis_score:
  "overall_clarity_score (analyzeTextForGaps text)
   = calculateClarityScore text (gaps (analyzeTextForGaps text))"
  by (simp add: analyzeTextForGaps_def Let_def)

lemma analysis_score_formula:
  "overall_clarity_score (analyzeTextForGaps text) =
     max 0 (min 100 (100 - int (length (gaps (analyzeTextForGaps text))) * 15
                         - int (length (filter (\<lambda>g. severity g = high)
                                               (gaps (analyzeTextForGaps text)))) * 10
                         + (if 20 < wordCount text then 5 else 0)
                         + (if 50 < wordCount text then 10 else 0)))"
  by (subst analysis_score) (rule calculateClarityScore_formula)

lemma analysis_score_bounds:
  "0 \<le> overall_clarity_score (analyzeTextForGaps text)
   \<and> overall_clarity_score (analyzeTextForGaps text) \<le> 100"
  unfolding analysis_score by (rule calculateClarityScore_bounds)

section \<open>Properties of the refinement\<close>

lemma has_category_iff: "has_category c gs \<longleftrightarrow> c \<in> category ` set gs"
  by (auto simp: has_category_def list_ex_iff)

lemma UNIV_category:
  "(UNIV :: category set) =
     {missing_context, ambiguous_requirement, unclear_output, missing_constraints}"
proof -
  have "c \<in> {missing_context, ambiguous_requirement, unclear_output, missing_constraints}"
    for c :: category
    by (cases c) simp_all
  then show ?thesis by blast
qed

lemma card_categories:
  fixes S :: "category set"
  shows "card S = (if missing_context \<in> S then 1 else 0)
                + (if ambiguous_requirement \<in> S then 1 else 0)
                + (if unclear_output \<in> S then 1 else 0)
                + (if missing_constraints \<in> S then 1 else 0)"
proof -
  have fin: "finite (UNIV :: category set)" by (simp add: UNIV_category)
  have "card S = card (UNIV \<inter> S)" by simp
  also have "\<dots> = (\<Sum>c \<in> UNIV. if c \<in> S then 1 else 0)"
    using fin by (simp only: sum.inter_restrict[symmetric] card_eq_sum)
  also have "\<dots> = (if missing_context \<in> S then 1 else 0)
                + (if ambiguous_requirement \<in> S then 1 else 0)
                + (if unclear_output \<in> S then 1 else 0)
                + (if missing_constraints \<in> S then 1 else 0)"
    unfolding UNIV_category by simp
  finally show ?thesis .
qed

lemma term_at_bound:
  assumes "term_at s = Some n"
  shows "n \<le> 6"
proof -
  from assms obtain w where
    "find (\<lambda>w. startsWith (toLowerCase s) w
                \<and> (case drop (length w) s of [] \<Rightarrow> True | d # _ \<Rightarrow> \<not> is_word d))
          subjectiveTerms = Some w"
    and n: "n = length w"
    unfolding term_at_def by auto
  then have "w \<in> set subjectiveTerms" by (auto simp: find_Some_iff)
  then show ?thesis unfolding n subjectiveTerms_def by auto
qed

text \<open>The replacement is longer than any of the six words, so it never shortens the text.\<close>

lemma length_replaceTerms:
  "k \<le> 22 \<Longrightarrow> length s \<le> length (replaceTerms p k s) + k"
proof (induction s arbitrary: p k)
  case Nil
  then show ?case by simp
next
  case (Cons c cs)
  show ?case
  proof (cases "0 < k")
    case True
    with Cons.prems have "k - 1 \<le> 22" by simp
    from Cons.IH[OF this, of "is_word c"] True show ?thesis by simp
  next
    case False
    then have k: "k = 0" by simp
    show ?thesis
    proof (cases "if p then None else term_at (c # cs)")
      case None
      from Cons.IH[of 0 "is_word c"] have "length cs \<le> length (replaceTerms (is_word c) 0 cs)"
        by simp
      with None k show ?thesis by simp
    next
      case (Some n)
      then have "term_at (c # cs) = Some n" by (simp split: if_splits)
      from term_at_bound[OF this] have n: "n \<le> 6" .
      then have "n - 1 \<le> 22" by simp
      from Cons.IH[OF this, of "is_word c"] n
      have "length cs \<le> length (replaceTerms (is_word c) (n - 1) cs) + 5" by simp
      with Some k show ?thesis by simp
    qed
  qed
qed

lemma length_replaceSubjective: "length s \<le> length (replaceSubjective s)"
  using length_replaceTerms[of 0 s False] by (simp add: replaceSubjective_def)

lemma context_fix_props:
  "length t < length (fst (context_fix (t, imps)))
   \<and> length (snd (context_fix (t, imps))) = length imps + 1"
  by (simp add: context_fix_def Let_def)

lemma ambiguity_fix_props:
  "fst (ambiguity_fix (t, imps)) = replaceSubjective t
   \<and> length (snd (ambiguity_fix (t, imps))) = length imps + 1"
  by (simp add: ambiguity_fix_def Let_def)

lemma output_fix_props:
  "length t < length (fst (output_fix (t, imps)))
   \<and> length (snd (output_fix (t, imps))) = length imps + 1"
  by (simp add: output_fix_def Let_def)

lemma constraints_fix_props:
  "length t < length (fst (constraints_fix (t, imps)))
   \<and> length (snd (constraints_fix (t, imps))) = length imps + 1"
  by (simp add: constraints_fix_def Let_def)

text \<open>The four gated steps, for any four gates.\<close>

lemma gated_steps:
  fixes gc ga go gm :: bool and t :: string
  shows "length (snd (gated gm constraints_fix (gated go output_fix
                   (gated ga ambiguity_fix (gated gc context_fix (t, []))))))
         = (if gc then 1 else 0) + (if ga then 1 else 0)
           + (if go then 1 else 0) + (if gm then 1 else 0)"
    and "fst (gated gm constraints_fix (gated go output_fix
                   (gated ga ambiguity_fix (gated gc context_fix (t, []))))) \<noteq> t
         \<longleftrightarrow> gc \<or> go \<or> gm \<or> (ga \<and> replaceSubjective t \<noteq> t)"
proof -
  define st1 where "st1 = gated gc context_fix (t, [])"
  define st2 where "st2 = gated ga ambiguity_fix st1"
  define st3 where "st3 = gated go output_fix st2"
  define st4 where "st4 = gated gm constraints_fix st3"
  obtain t1 i1 where s1: "st1 = (t1, i1)" by (cases st1)
  obtain t2 i2 where s2: "st2 = (t2, i2)" by (cases st2)
  obtain t3 i3 where s3: "st3 = (t3, i3)" by (cases st3)
  obtain t4 i4 where s4: "st4 = (t4, i4)" by (cases st4)
  have p1: "(gc \<longrightarrow> length t < length t1) \<and> (\<not> gc \<longrightarrow> t1 = t)
            \<and> length i1 = (if gc then 1 else 0)"
    using s1 context_fix_props[of t "[]"] unfolding st1_def gated_def
    by (cases gc) auto
  have p2: "(ga \<longrightarrow> t2 = replaceSubjective t1) \<and> (\<not> ga \<longrightarrow> t2 = t1)
            \<and> length i2 = length i1 + (if ga then 1 else 0)"
    using s2 ambiguity_fix_props[of t1 i1] unfolding st2_def gated_def s1
    by (cases ga) auto
  have p3: "(go \<longrightarrow> length t2 < length t3) \<and> (\<not> go \<longrightarrow> t3 = t2)
            \<and> length i3 = length i2 + (if go then 1 else 0)"
    using s3 output_fix_props[of t2 i2] unfolding st3_def gated_def s2
    by (cases go) auto
  have p4: "(gm \<longrightarrow> length t3 < length t4) \<and> (\<not> gm \<longrightarrow> t4 = t3)
            \<and> length i4 = length i3 + (if gm then 1 else 0)"
    using s4 constraints_fix_props[of t3 i3] unfolding st4_def gated_def s3
    by (cases gm) auto
  from p1 p2 p3 p4
  have "length (snd st4) = (if gc then 1 else 0) + (if ga then 1 else 0)
                             + (if go then 1 else 0) + (if gm then 1 else 0)"
    by (simp add: s4)
  then show "length (snd (gated gm constraints_fix (gated go output_fix
                   (gated ga ambiguity_fix (gated gc context_fix (t, []))))))
         = (if gc then 1 else 0) + (if ga then 1 else 0)
           + (if go then 1 else 0) + (if gm then 1 else 0)"
    by (simp only: st1_def st2_def st3_def st4_def)
  have l2: "length t1 \<le> length t2"
    using p2 length_replaceSubjective[of t1] by (cases ga) auto
  have l1: "length t \<le> length t1" using p1 by (cases gc) auto
  have l3: "length t2 \<le> length t3" using p3 by (cases go) auto
  have l4: "length t3 \<le> length t4" using p4 by (cases gm) auto
  have "fst st4 \<noteq> t \<longleftrightarrow> gc \<or> go \<or> gm \<or> (ga \<and> replaceSubjective t \<noteq> t)"
  proof (cases "gc \<or> go \<or> gm")
    case True
    with p1 p3 p4 l1 l2 l3 l4 have "length t < length t4" by linarith
    with True show ?thesis by (auto simp: s4)
  next
    case False
    with p1 p3 p4 have "t4 = t2" "t1 = t" by simp_all
    with p2 False show ?thesis by (cases ga) (auto simp: s4)
  qed
  then show "fst (gated gm constraints_fix (gated go output_fix
                   (gated ga ambiguity_fix (gated gc context_fix (t, []))))) \<noteq> t
         \<longleftrightarrow> gc \<or> go \<or> gm \<or> (ga \<and> replaceSubjective t \<noteq> t)"
    by (simp only: st1_def st2_def st3_def st4_def)
qed

lemma refinePrompt_steps:
  "refined_prompt (refinePrompt text) =
     fst (gated (has_category missing_constraints (gaps (analyzeTextForGaps text))) constraints_fix
           (gated (has_category unclear_output (gaps (analyzeTextForGaps text))) output_fix
             (gated (has_category ambiguous_requirement (gaps (analyzeTextForGaps text))) ambiguity_fix
               (gated (has_category missing_context (gaps (analyzeTextForGaps text))) context_fix
                  (text, [])))))"
  "improvements (refinePrompt text) =
     snd (gated (has_category missing_constraints (gaps (analyzeTextForGaps text))) constraints_fix
           (gated (has_category unclear_output (gaps (analyzeTextForGaps text))) output_fix
             (gated (has_category ambiguous_requirement (gaps (analyzeTextForGaps text))) ambiguity_fix
               (gated (has_category missing_context (gaps (analyzeTextForGaps text))) context_fix
                  (text, [])))))"
  "original_prompt (refinePrompt text) = text"
  by (simp_all add: refinePrompt_def Let_def)

text \<open>
  C3, as amended. The improvements of \<open>refinePrompt\<close> are as many as the distinct
  categories among the findings of the text, at most 4. The refined prompt differs from
  the original exactly when a finding of category \<open>missing_context\<close>,
  \<open>unclear_output\<close> or \<open>missing_constraints\<close> is present, or a finding of category
  \<open>ambiguous_requirement\<close> is present and the replacement of the six subjective
  words changes the text; so it differs only when there is an improvement.
\<close>

theorem refinePrompt_improvements:
  "length (improvements (refinePrompt text))
     = card (category ` set (gaps (analyzeTextForGaps text)))
   \<and> length (improvements (refinePrompt text)) \<le> 4
   \<and> (refined_prompt (refinePrompt text) \<noteq> original_prompt (refinePrompt text) \<longleftrightarrow>
        has_category missing_context (gaps (analyzeTextForGaps text))
        \<or> has_category unclear_output (gaps (analyzeTextForGaps text))
        \<or> has_category missing_constraints (gaps (analyzeTextForGaps text))
        \<or> (has_category ambiguous_requirement (gaps (analyzeTextForGaps text))
            \<and> replaceSubjective text \<noteq> text))
   \<and> (refined_prompt (refinePrompt text) \<noteq> original_prompt (refinePrompt text)
        \<longrightarrow> improvements (refinePrompt text) \<noteq> [])"
proof -
  let ?gs = "gaps (analyzeTextForGaps text)"
  let ?c = "has_category missing_context ?gs"
  let ?a = "has_category ambiguous_requirement ?gs"
  let ?o = "has_category unclear_output ?gs"
  let ?m = "has_category missing_constraints ?gs"
  have n: "length (improvements (refinePrompt text))
           = (if ?c then 1 else 0) + (if ?a then 1 else 0) + (if ?o then 1 else 0)
             + (if ?m then 1 else 0)"
    unfolding refinePrompt_steps by (rule gated_steps(1))
  have d: "refined_prompt (refinePrompt text) \<noteq> original_prompt (refinePrompt text)
           \<longleftrightarrow> ?c \<or> ?o \<or> ?m \<or> (?a \<and> replaceSubjective text \<noteq> text)"
    unfolding refinePrompt_steps by (rule gated_steps(2))
  have card: "length (improvements (refinePrompt text)) = card (category ` set ?gs)"
    unfolding n card_categories[of "category ` set ?gs"] has_category_iff by simp
  have le: "length (improvements (refinePrompt text)) \<le> 4"
    unfolding n by simp
  have ne: "refined_prompt (refinePrompt text) \<noteq> original_prompt (refinePrompt text)
            \<longrightarrow> improvements (refinePrompt text) \<noteq> []"
  proof
    assume "refined_prompt (refinePrompt text) \<noteq> original_prompt (refinePrompt text)"
    with d have "?c \<or> ?a \<or> ?o \<or> ?m" by blast
    with n have "0 < length (improvements (refinePrompt text))" by auto
    then show "improvements (refinePrompt text) \<noteq> []" by simp
  qed
  from card le d ne show ?thesis by (intro conjI)
qed

lemma refinePrompt_make_something_good:
  "length (improvements (refinePrompt ''Make something good'')) = 2
   \<and> refined_prompt (refinePrompt ''Make something good'') =
       ''Make something specific and measurable The output should be in [specific format] with [specific structure] and include [specific content].''
   \<and> original_prompt (refinePrompt ''Make something good'') = ''Make something good''"
  by code_simp

theorem refinePrompt_improvements_witness:
  "length (improvements (refinePrompt ''Make something good'')) = 2
   \<and> card (category ` set (gaps (analyzeTextForGaps ''Make something good''))) = 2
   \<and> refined_prompt (refinePrompt ''Make something good'')
       \<noteq> original_prompt (refinePrompt ''Make something good'')
   \<and> improvements (refinePrompt ''Make something good'') \<noteq> []"
proof -
  note t = refinePrompt_improvements[of "''Make something good''"]
  have l: "length (improvements (refinePrompt ''Make something good'')) = 2"
    using refinePrompt_make_something_good by (rule conjunct1)
  have d: "refined_prompt (refinePrompt ''Make something good'')
       \<noteq> original_prompt (refinePrompt ''Make something good'')"
    using refinePrompt_make_something_good by simp
  from t l have c: "card (category ` set (gaps (analyzeTextForGaps ''Make something good''))) = 2"
    by simp
  from t d have "improvements (refinePrompt ''Make something good'') \<noteq> []"
    by blast
  with l c d show ?thesis by (intro conjI)
qed

text \<open>
  The statement of C3 itself fails: for "Maybe add a login page" the only finding is
  the ambiguity "maybe", none of the six replaced words occurs, and the one improvement
  records a text that did not change.
\<close>

theorem refinePrompt_unchanged_counterexample:
  "length (improvements (refinePrompt ''Maybe add a login page'')) = 1
   \<and> refined_prompt (refinePrompt ''Maybe add a login page'') = ''Maybe add a login page''
   \<and> original_prompt (refinePrompt ''Maybe add a login page'') = ''Maybe add a login page''"
  by code_simp

section \<open>Properties of the extraction\<close>

subsection \<open>Captured groups\<close>

lemma longest_Some:
  "longest k n = Some r \<Longrightarrow> \<exists>j. 0 < j \<and> j \<le> n \<and> k j = Some r"
proof (induction n)
  case 0
  then show ?case by simp
next
  case (Suc n)
  show ?case
  proof (cases "k (Suc n)")
    case None
    with Suc.prems have "longest k n = Some r" by simp
    from Suc.IH[OF this] show ?thesis by (auto intro: le_SucI)
  next
    case (Some r')
    with Suc.prems have "k (Suc n) = Some r" by simp
    then show ?thesis by blast
  qed
qed

text \<open>A match captures one text for each group of the pattern.\<close>

lemma match_at_groups:
  "match_at re s = Some (caps, n) \<Longrightarrow> length caps = length (filter (\<lambda>a. a = WordGroup) re)"
proof (induction re arbitrary: s caps n)
  case Nil
  then show ?case by simp
next
  case (Cons a re)
  show ?case
  proof (cases a)
    case (Lit l)
    with Cons.prems obtain n' where "match_at re (drop (length l) s) = Some (caps, n')"
      by (auto split: if_splits)
    from Cons.IH[OF this] Lit show ?thesis by simp
  next
    case WordGroup
    with Cons.prems have
      "longest (\<lambda>k. map_option (\<lambda>(caps, n). (take k s # caps, k + n)) (match_at re (drop k s)))
               (length (takeWhile is_word s)) = Some (caps, n)"
      by simp
    from longest_Some[OF this] obtain j caps' n' where
      "match_at re (drop j s) = Some (caps', n')" and "caps = take j s # caps'"
      by auto
    from Cons.IH[OF this(1)] this(2) WordGroup show ?thesis by simp
  next
    case Spaces
    with Cons.prems have
      "longest (\<lambda>k. map_option (\<lambda>(caps, n). (caps, k + n)) (match_at re (drop k s)))
               (length (takeWhile is_space s)) = Some (caps, n)"
      by simp
    from longest_Some[OF this] obtain j n' where "match_at re (drop j s) = Some (caps, n')"
      by auto
    from Cons.IH[OF this] Spaces show ?thesis by simp
  qed
qed

subsection \<open>The task\<close>

lemma extractTask_Cons: "sentences text = s # rest \<Longrightarrow> extractTask text = Inr (trim s)"
  by (simp add: extractTask_def Let_def)

lemma extractTask_Nil:
  "sentences text = [] \<Longrightarrow>
     extractTask text = Inl (TypeError ''Cannot read properties of undefined (reading 'trim')'')"
  by (simp add: extractTask_def)

lemma extractTask_catalog:
  "extractTask ''Generate a product catalog for corrugated boxes with pricing and specs''
   = Inr ''Generate a product catalog for corrugated boxes with pricing and specs''"
  by code_simp

lemma starts_with_generate:
  "startsWith (toLowerCase ''Generate a product catalog for corrugated boxes with pricing and specs'')
              (toLowerCase ''generate'')"
  by code_simp

lemma extractOutputs_catalog:
  "primary (extractOutputs ''Generate a product catalog for corrugated boxes with pricing and specs'')
   = ''Catalog''"
  by code_simp

lemma sentences_build: "sentences '' Build it'' = ['' Build it'']"
  by code_simp

lemma extractTask_build: "extractTask '' Build it'' = Inr ''Build it''"
  by code_simp

text \<open>
  C8, as amended. For a text with a sentence that is not blank, the task is the first
  such sentence with the white space at its two ends removed, whether it begins with
  an action verb or not. For "Generate a product catalog for corrugated boxes with
  pricing and specs", which begins with the verb "generate", the task is the whole text
  and the primary output is "Catalog".
\<close>

theorem task_is_first_sentence_trimmed:
  "(\<forall>s rest. sentences text = s # rest \<longrightarrow> extractTask text = Inr (trim s))
   \<and> startsWith (toLowerCase ''Generate a product catalog for corrugated boxes with pricing and specs'')
                 (toLowerCase ''generate'')
   \<and> extractTask ''Generate a product catalog for corrugated boxes with pricing and specs''
       = Inr ''Generate a product catalog for corrugated boxes with pricing and specs''
   \<and> primary (extractOutputs ''Generate a product catalog for corrugated boxes with pricing and specs'')
       = ''Catalog''"
  using extractTask_Cons[of "text"] starts_with_generate extractTask_catalog extractOutputs_catalog
  by blast

theorem task_is_first_sentence_trimmed_witness:
  "sentences '' Build it'' = ['' Build it'']
   \<and> trim '' Build it'' = ''Build it''
   \<and> extractTask '' Build it'' = Inr (trim '' Build it'')"
proof -
  from task_is_first_sentence_trimmed[of "'' Build it''"] sentences_build
  have "extractTask '' Build it'' = Inr (trim '' Build it'')" by blast
  moreover have "trim '' Build it'' = ''Build it''" by code_simp
  ultimately show ?thesis using sentences_build by (intro conjI)
qed

text \<open>
  The statement of C8 itself fails: the only sentence of " Build it" begins with a
  space, and the task is "Build it", not the sentence as it stands.
\<close>

theorem task_not_verbatim_counterexample:
  "sentences '' Build it'' = ['' Build it'']
   \<and> extractTask '' Build it'' = Inr ''Build it''
   \<and> ''Build it'' \<noteq> '' Build it''"
  using sentences_build extractTask_build by simp

subsection \<open>Required and optional inputs\<close>

lemma extractRequiredInputs_no_match:
  assumes "\<forall>pattern \<in> set (dataPatterns @ paramPatterns). matchRe pattern text = None"
  shows "extractRequiredInputs text = [''Input text or prompt'', ''Context or background information'']"
proof -
  have "concat (map (\<lambda>pattern. case matchRe pattern text of
                                  None \<Rightarrow> []
                                | Some matches \<Rightarrow> [group1 matches @ '' data/information''])
                    dataPatterns) = []"
    using assms by simp
  moreover
  have "concat (map (\<lambda>pattern. case matchRe pattern text of
                                  None \<Rightarrow> []
                                | Some matches \<Rightarrow> [group1 matches @ '' parameters/criteria''])
                    paramPatterns) = []"
    using assms by simp
  ultimately show ?thesis by (simp add: extractRequiredInputs_def)
qed

lemma no_matching_patterns:
  "list_all (\<lambda>pattern. matchRe pattern ''no matching patterns'' = None)
            (dataPatterns @ paramPatterns)"
  by code_simp

lemma extractRequiredInputs_no_matching_patterns:
  "extractRequiredInputs ''no matching patterns''
   = [''Input text or prompt'', ''Context or background information'']"
  using no_matching_patterns
  by (intro extractRequiredInputs_no_match) (simp only: list_all_iff)

lemma extractOptionalInputs_sample:
  "extractOptionalInputs ''optional colour and size (optional)''
   = [''colour'', ''size'', ''Additional context'', ''Preferences or style guidelines'']"
  by code_simp

lemma extractOptionalInputs_no_match:
  "extractOptionalInputs ''no matching patterns''
   = [''Additional context'', ''Preferences or style guidelines'']"
  by code_simp

text \<open>
  C9. When none of the data and parameter patterns matches the text, the required
  inputs are exactly the two generic strings, as for "no matching patterns". The
  optional inputs are the captured words of all matches followed by the two fixed
  strings, for every text.
\<close>

theorem required_fallback_and_optional_defaults:
  "((\<forall>pattern \<in> set (dataPatterns @ paramPatterns). matchRe pattern text = None) \<longrightarrow>
      extractRequiredInputs text = [''Input text or prompt'', ''Context or background information''])
   \<and> extractRequiredInputs ''no matching patterns''
       = [''Input text or prompt'', ''Context or background information'']
   \<and> extractOptionalInputs text
       = concat (map (\<lambda>pattern. map group1 (matchAll pattern text)) optionalPatterns)
         @ [''Additional context'', ''Preferences or style guidelines'']"
proof (intro conjI impI)
  assume "\<forall>pattern \<in> set (dataPatterns @ paramPatterns). matchRe pattern text = None"
  then show "extractRequiredInputs text
             = [''Input text or prompt'', ''Context or background information'']"
    by (rule extractRequiredInputs_no_match)
next
  show "extractRequiredInputs ''no matching patterns''
        = [''Input text or prompt'', ''Context or background information'']"
    by (rule extractRequiredInputs_no_matching_patterns)
next
  show "extractOptionalInputs text
        = concat (map (\<lambda>pattern. map group1 (matchAll pattern text)) optionalPatterns)
          @ [''Additional context'', ''Preferences or style guidelines'']"
    by (simp only: extractOptionalInputs_def)
qed

theorem required_fallback_and_optional_defaults_witness:
  "list_all (\<lambda>pattern. matchRe pattern ''no matching patterns'' = None)
            (dataPatterns @ paramPatterns)
   \<and> extractRequiredInputs ''no matching patterns''
       = [''Input text or prompt'', ''Context or background information'']
   \<and> extractOptionalInputs ''no matching patterns''
       = [''Additional context'', ''Preferences or style guidelines'']
   \<and> extractOptionalInputs ''optional colour and size (optional)''
       = [''colour'', ''size'', ''Additional context'', ''Preferences or style guidelines'']"
proof -
  note t = required_fallback_and_optional_defaults[of "''no matching patterns''"]
  have h: "\<forall>pattern \<in> set (dataPatterns @ paramPatterns).
             matchRe pattern ''no matching patterns'' = None"
    using no_matching_patterns by (simp only: list_all_iff)
  from t h have "extractRequiredInputs ''no matching patterns''
       = [''Input text or prompt'', ''Context or background information'']"
    by blast
  with no_matching_patterns extractOptionalInputs_no_match extractOptionalInputs_sample
  show ?thesis by (intro conjI)
qed

subsection \<open>The response of the conversion\<close>

lemma processing_time_ms_convert:
  "processing_time_ms (convertPromptToJson startTime endTime text) = endTime - startTime"
  by (cases "extractRecord text") (simp_all add: convertPromptToJson_def)

text \<open>The extraction raises exactly when the text has no sentence that is not blank.\<close>

lemma extractRecord_Inl_iff:
  "extractRecord text = Inl e \<longleftrightarrow>
     sentences text = []
     \<and> e = TypeError ''Cannot read properties of undefined (reading 'trim')''"
proof (cases "sentences text")
  case Nil
  from extractTask_Nil[OF this] show ?thesis using Nil by (auto simp: extractRecord_def)
next
  case (Cons s rest)
  from extractTask_Cons[OF this] show ?thesis using Cons by (simp add: extractRecord_def)
qed

lemma convert_dots:
  "convertPromptToJson 5 7 ''...''
   = Failure ''Cannot read properties of undefined (reading 'trim')'' 2"
  by code_simp

lemma convert_build_success: "success (convertPromptToJson 5 7 ''Build a site'')"
  by code_simp

lemma convert_build_backwards:
  "processing_time_ms (convertPromptToJson 7 5 ''Build a site'') = - 2"
  by (simp add: processing_time_ms_convert)

text \<open>
  C5, as amended. \<open>convertPromptToJson\<close> returns either the success response with
  the extracted record, or, when the extraction raises, the failure response with the
  message of the exception; no exception leaves the function, and the extraction
  raises exactly when the text has no sentence that is not blank. In both responses the
  processing time is the second reading of the clock less the first, an integer that
  is not negative exactly when the second reading is not before the first.
\<close>

theorem convertPromptToJson_response:
  "((\<exists>d. sentences text \<noteq> [] \<and> extractRecord text = Inr d
          \<and> convertPromptToJson startTime endTime text = Success d (endTime - startTime))
    \<or> (\<exists>e. sentences text = [] \<and> extractRecord text = Inl e
          \<and> convertPromptToJson startTime endTime text
              = Failure (message e) (endTime - startTime)))
   \<and> processing_time_ms (convertPromptToJson startTime endTime text) = endTime - startTime
   \<and> (0 \<le> processing_time_ms (convertPromptToJson startTime endTime text)
        \<longleftrightarrow> startTime \<le> endTime)"
proof -
  have t: "processing_time_ms (convertPromptToJson startTime endTime text) = endTime - startTime"
    by (rule processing_time_ms_convert)
  have nn: "0 \<le> processing_time_ms (convertPromptToJson startTime endTime text)
            \<longleftrightarrow> startTime \<le> endTime"
    unfolding t by linarith
  have shape:
    "(\<exists>d. sentences text \<noteq> [] \<and> extractRecord text = Inr d
          \<and> convertPromptToJson startTime endTime text = Success d (endTime - startTime))
     \<or> (\<exists>e. sentences text = [] \<and> extractRecord text = Inl e
          \<and> convertPromptToJson startTime endTime text
              = Failure (message e) (endTime - startTime))"
  proof (cases "extractRecord text")
    case (Inl e)
    then have "sentences text = []" by (simp add: extractRecord_Inl_iff)
    moreover from Inl
    have "convertPromptToJson startTime endTime text = Failure (message e) (endTime - startTime)"
      by (simp add: convertPromptToJson_def)
    ultimately show ?thesis using Inl by blast
  next
    case (Inr d)
    have "sentences text \<noteq> []"
    proof
      assume "sentences text = []"
      from extractTask_Nil[OF this] have "\<exists>e. extractRecord text = Inl e"
        by (simp add: extractRecord_def)
      with Inr show False by simp
    qed
    moreover from Inr
    have "convertPromptToJson startTime endTime text = Success d (endTime - startTime)"
      by (simp add: convertPromptToJson_def)
    ultimately show ?thesis using Inr by blast
  qed
  from shape t nn show ?thesis by (intro conjI)
qed

theorem convertPromptToJson_response_witness:
  "convertPromptToJson 5 7 ''...''
     = Failure ''Cannot read properties of undefined (reading 'trim')'' 2
   \<and> processing_time_ms (convertPromptToJson 5 7 ''...'') = 2
   \<and> success (convertPromptToJson 5 7 ''Build a site'')
   \<and> processing_time_ms (convertPromptToJson 5 7 ''Build a site'') = 2
   \<and> 0 \<le> processing_time_ms (convertPromptToJson 5 7 ''Build a site'')"
proof -
  have a: "processing_time_ms (convertPromptToJson 5 7 ''...'') = 7 - 5"
    by (rule convertPromptToJson_response[THEN conjunct2, THEN conjunct1])
  have b: "processing_time_ms (convertPromptToJson 5 7 ''Build a site'') = 7 - 5"
    by (rule convertPromptToJson_response[THEN conjunct2, THEN conjunct1])
  have c: "(0 \<le> processing_time_ms (convertPromptToJson 5 7 ''Build a site''))
           = ((5::int) \<le> 7)"
    by (rule convertPromptToJson_response[THEN conjunct2, THEN conjunct2])
  from a have a': "processing_time_ms (convertPromptToJson 5 7 ''...'') = 2" by simp
  from b have b': "processing_time_ms (convertPromptToJson 5 7 ''Build a site'') = 2" by simp
  from c have c': "0 \<le> processing_time_ms (convertPromptToJson 5 7 ''Build a site'')" by simp
  from convert_dots a' convert_build_success b' c' show ?thesis by (intro conjI)
qed

text \<open>
  The statement of C5 itself fails where the clock is set back between the two
  readings: with the readings 7 and 5 the response is a success and its processing
  time is -2.
\<close>

theorem convertPromptToJson_negative_time_counterexample:
  "success (convertPromptToJson 7 5 ''Build a site'')
   \<and> processing_time_ms (convertPromptToJson 7 5 ''Build a site'') = - 2
   \<and> processing_time_ms (convertPromptToJson 7 5 ''Build a site'') < 0"
proof -
  have "success (convertPromptToJson 7 5 ''Build a site'')
        = success (convertPromptToJson 5 7 ''Build a site'')"
    by (cases "extractRecord ''Build a site''") (simp_all add: convertPromptToJson_def)
  with convert_build_success have "success (convertPromptToJson 7 5 ''Build a site'')" by simp
  with convert_build_backwards show ?thesis by simp
qed

text \<open>
  C6. Two runs of \<open>convertPromptToJson\<close> on the same text, whatever the clock reads
  in each, agree on success, data and error; only the processing time depends on the
  clock. The gap analysis reads nothing but its text, so on the same text two runs give
  the same findings in the same order and the same score.
\<close>

theorem runs_on_same_text_agree:
  "success (convertPromptToJson start1 end1 text) = success (convertPromptToJson start2 end2 text)
   \<and> data (convertPromptToJson start1 end1 text) = data (convertPromptToJson start2 end2 text)
   \<and> error_message (convertPromptToJson start1 end1 text)
       = error_message (convertPromptToJson start2 end2 text)
   \<and> (text1 = text2 \<longrightarrow>
        gaps (analyzeTextForGaps text1) = gaps (analyzeTextForGaps text2)
        \<and> overall_clarity_score (analyzeTextForGaps text1)
            = overall_clarity_score (analyzeTextForGaps text2))"
  by (cases "extractRecord text") (simp_all add: convertPromptToJson_def)

theorem runs_on_same_text_agree_witness:
  "data (convertPromptToJson 1 2 ''Make something good'')
     = data (convertPromptToJson 10 50 ''Make something good'')
   \<and> processing_time_ms (convertPromptToJson 1 2 ''Make something good'') = 1
   \<and> processing_time_ms (convertPromptToJson 10 50 ''Make something good'') = 40
   \<and> gaps (analyzeTextForGaps ''Make something good'')
       = [ambiguity_gap ''good'', output_gap ''something'']"
proof -
  from runs_on_same_text_agree[of 1 2 "''Make something good''" 10 50]
  have "data (convertPromptToJson 1 2 ''Make something good'')
     = data (convertPromptToJson 10 50 ''Make something good'')"
    by blast
  then show ?thesis
    by (simp add: processing_time_ms_convert analysis_make_something_good)
qed

end
